theory Spec2Isabelle
  imports Complex_Main "HOL-Library.Monad_Syntax" "HOL-Library.Word"
begin

section \<open>Rasters and the subpixel sampler\<close>

text \<open>
  The scalar type \<open>T\<close> of the templates (\<open>float\<close> or \<open>double\<close>) is modelled by
  \<^typ>\<open>real\<close>: arithmetic is exact, there is no rounding, no NaN and no infinity. The
  C++ type \<open>int\<close> is modelled by \<^typ>\<open>int\<close>; the conversions \<open>(int) std::floor(xf)\<close> and
  \<open>static_cast<int>(std::round(p))\<close> are modelled for values inside the range of \<open>int\<close>,
  where they are exact. Outside that range the conversion is undefined in C++, and the
  model, which takes the mathematical floor there, does not speak for the program: the
  statements below about where the sampler reads and what it returns bound their
  coordinates by the raster or by \<open>2^31\<close>.

  \<open>Image\<close> is a template parameter used only through \<open>rows()\<close>, \<open>cols()\<close> and
  \<open>operator()(row, col)\<close>. A raster is therefore its two dimensions and a function from
  (row, column) to the pixel value. Reading outside \<open>[0, rows) \<times> [0, cols)\<close> is
  undefined behaviour in C++; in the model such a read gives \<open>None\<close>, and every function
  that performs one returns \<open>None\<close>.
\<close>

record raster =
  rows :: nat
  cols :: nat
  px :: "int \<Rightarrow> int \<Rightarrow> real"

text \<open>\<open>I(y, x)\<close>: the pixel at row \<open>y\<close> and column \<open>x\<close>.\<close>

definition pixel :: "raster \<Rightarrow> int \<Rightarrow> int \<Rightarrow> real option" where
  "pixel I y x =
     (if 0 \<le> y \<and> y < int (rows I) \<and> 0 \<le> x \<and> x < int (cols I)
      then Some (px I y x) else None)"

text \<open>
  \<open>interp2(I, xf, yf, fillval, offset)\<close>, branch by branch as in the source. The reads of
  a branch happen only when that branch is taken: the conditional operator evaluates one
  of its two arms.
\<close>

definition interp2 :: "raster \<Rightarrow> real \<Rightarrow> real \<Rightarrow> real \<Rightarrow> real \<Rightarrow> real option" where
  "interp2 I xf0 yf0 fillval offset =
     (let max_cols = int (cols I) - 1;
          max_rows = int (rows I) - 1;
          xf1 = xf0 + offset;
          yf1 = yf0 + offset;
          xi = \<lfloor>xf1\<rfloor>;
          yi = \<lfloor>yf1\<rfloor>;
          xf = xf1 - of_int xi;
          yf = yf1 - of_int yi
      in if xi \<ge> 0 \<and> xi < max_cols \<and> yi \<ge> 0 \<and> yi < max_rows then
           do {
             a \<leftarrow> pixel I yi xi;
             b \<leftarrow> pixel I yi (xi + 1);
             c \<leftarrow> pixel I (yi + 1) xi;
             d \<leftarrow> pixel I (yi + 1) (xi + 1);
             let wx = 1 - xf;
             Some ((1 - yf) * (a * wx + b * xf) + yf * (c * wx + d * xf))
           }
         else if xi = max_cols \<and> yi < max_rows then
           (if xf > 0 then Some fillval
            else do {
              a \<leftarrow> pixel I yi xi;
              c \<leftarrow> pixel I (yi + 1) xi;
              Some ((1 - yf) * a + yf * c)
            })
         else if yi = max_rows \<and> xi < max_cols then
           (if yf > 0 then Some fillval
            else do {
              a \<leftarrow> pixel I yi xi;
              b \<leftarrow> pixel I yi (xi + 1);
              Some ((1 - xf) * a + xf * b)
            })
         else if xi = max_cols \<and> yi = max_rows then
           (if xf > 0 \<or> yf > 0 then Some fillval else pixel I yi xi)
         else Some fillval)"

section \<open>Fixed-size patches\<close>

text \<open>
  \<open>interpolateFixedPatch<R>(dst, I, p, fillval, offset)\<close>. The outer loop runs over the
  columns \<open>c = -R .. R\<close>, the inner one over the rows \<open>r = -R .. R\<close>, and the running
  index \<open>i\<close> is incremented once per inner step, so \<open>dst\<close> is filled column by column.
  The call \<open>interp2(I, xf, yf, fillval)\<close> leaves the offset of \<open>interp2\<close> at its
  default 0. The result is \<open>None\<close> when one of the samples reads outside the raster.
\<close>

definition interpolateFixedPatch ::
    "nat \<Rightarrow> raster \<Rightarrow> real \<times> real \<Rightarrow> real \<Rightarrow> real \<Rightarrow> real list option" where
  "interpolateFixedPatch R I p fillval offset =
     (let x = fst p + offset;
          y = snd p + offset
      in those (concat (map (\<lambda>c.
           let xf = x + of_int c
           in map (\<lambda>r.
                let yf = y + of_int r
                in interp2 I xf yf fillval 0) [- int R .. int R]) [- int R .. int R])))"

text \<open>\<open>std::round\<close>: to the nearest integer, halfway cases away from zero.\<close>

definition cpp_round :: "real \<Rightarrow> int" where
  "cpp_round v = (if 0 \<le> v then \<lfloor>v + 1 / 2\<rfloor> else \<lceil>v - 1 / 2\<rceil>)"

text \<open>\<open>copyFixedPatch<R>(dst, I, p)\<close>, with the same loop structure.\<close>

definition copyFixedPatch :: "nat \<Rightarrow> raster \<Rightarrow> real \<times> real \<Rightarrow> real list option" where
  "copyFixedPatch R I p =
     (let x = cpp_round (fst p);
          y = cpp_round (snd p);
          max_cols = int (cols I) - 1;
          max_rows = int (rows I) - 1
      in those (concat (map (\<lambda>c.
           let xf = max (int R) (min (x + c) max_cols)
           in map (\<lambda>r.
                let yf = max (int R) (min (y + r) max_rows)
                in pixel I yf xf) [- int R .. int R]) [- int R .. int R])))"

section \<open>Correlation patches\<close>

text \<open>
  \<open>ZnccPatch<R, T>\<close> holds the vector \<open>_data\<close> of \<open>Dimension = (2R+1)*(2R+1)\<close> scalars
  and the scalar \<open>_norm\<close>.
\<close>

record ZnccPatch =
  p_data :: "real list"
  p_norm :: real

definition Dimension :: "nat \<Rightarrow> nat" where
  "Dimension R = (2 * R + 1) * (2 * R + 1)"

text \<open>Eigen's \<open>a.dot(b)\<close> and \<open>a.norm()\<close> on vectors held as lists.\<close>

definition dot :: "real list \<Rightarrow> real list \<Rightarrow> real" where
  "dot a b = sum_list (map2 (*) a b)"

definition l2norm :: "real list \<Rightarrow> real" where
  "l2norm a = sqrt (sum_list (map (\<lambda>v. v * v) a))"

text \<open>\<open>ZnccPatch::set(I, uv)\<close>; \<open>_data.size()\<close> is the compile-time \<open>Dimension\<close>.\<close>

definition ZnccPatch_set :: "nat \<Rightarrow> raster \<Rightarrow> real \<times> real \<Rightarrow> ZnccPatch option" where
  "ZnccPatch_set R I uv =
     do {
       d0 \<leftarrow> interpolateFixedPatch R I uv 0 0;
       let mean = sum_list d0 / real (Dimension R);
       let d1 = map (\<lambda>v. v - mean) d0;
       Some \<lparr>p_data = d1, p_norm = l2norm d1\<rparr>
     }"

text \<open>\<open>ZnccPatch::score(other)\<close>.\<close>

definition score :: "ZnccPatch \<Rightarrow> ZnccPatch \<Rightarrow> real" where
  "score this other =
     (let d = p_norm this * p_norm other
      in if d > 1 / 1000000 then dot (p_data this) (p_data other) / d else - 1)"

section \<open>Scene points\<close>

text \<open>
  \<open>PhotometricBundleAdjustment::ScenePoint\<close>. Frame numbers are \<open>uint32_t\<close>. The
  constructor initialises \<open>_X\<close>, \<open>_X_original\<close> and \<open>_f\<close>; \<open>_descriptor\<close> starts
  empty, \<open>_saliency\<close> and \<open>_was_refined\<close> have default member initialisers. The
  default-constructed \<open>_patch\<close> and the member \<open>_x\<close> hold no defined value until they
  are set, which is \<open>None\<close> here.
\<close>

type_synonym Vec3 = "real \<times> real \<times> real"

record ScenePoint =
  sp_X :: Vec3
  sp_X_original :: Vec3
  sp_f :: "32 word list"
  sp_patch :: "ZnccPatch option"
  sp_descriptor :: "real list"
  sp_saliency :: real
  sp_was_refined :: bool
  sp_x :: "(int \<times> int) option"

definition ScenePoint :: "Vec3 \<Rightarrow> 32 word \<Rightarrow> ScenePoint" where
  "ScenePoint X f_id =
     \<lparr>sp_X = X, sp_X_original = X, sp_f = [f_id], sp_patch = None, sp_descriptor = [],
      sp_saliency = 0, sp_was_refined = False, sp_x = None\<rparr>"

definition hasFrame :: "ScenePoint \<Rightarrow> 32 word \<Rightarrow> bool" where
  "hasFrame s f_id = (f_id \<in> set (sp_f s))"

definition visibilityList :: "ScenePoint \<Rightarrow> 32 word list" where
  "visibilityList s = sp_f s"

text \<open>\<open>front()\<close> and \<open>back()\<close> of an empty vector are undefined: \<open>None\<close>.\<close>

definition refFrameId :: "ScenePoint \<Rightarrow> 32 word option" where
  "refFrameId s = (case sp_f s of [] \<Rightarrow> None | g # _ \<Rightarrow> Some g)"

definition lastFrameId :: "ScenePoint \<Rightarrow> 32 word option" where
  "lastFrameId s = (if sp_f s = [] then None else Some (last (sp_f s)))"

definition numFrames :: "ScenePoint \<Rightarrow> nat" where
  "numFrames s = length (sp_f s)"

definition ScenePoint_addFrame :: "ScenePoint \<Rightarrow> 32 word \<Rightarrow> ScenePoint" where
  "ScenePoint_addFrame s g = s\<lparr>sp_f := sp_f s @ [g]\<rparr>"

text \<open>\<open>setZnccPach\<close>: \<open>ZnccPatchType\<close> is \<open>ZnccPatch<2, float>\<close>.\<close>

definition setZnccPach :: "ScenePoint \<Rightarrow> raster \<Rightarrow> real \<times> real \<Rightarrow> ScenePoint option" where
  "setZnccPach s I x =
     do {
       p \<leftarrow> ZnccPatch_set 2 I x;
       Some (s\<lparr>sp_patch := Some p\<rparr>)
     }"

definition setSaliency :: "ScenePoint \<Rightarrow> real \<Rightarrow> ScenePoint" where
  "setSaliency s v = s\<lparr>sp_saliency := v\<rparr>"

definition setRefined :: "ScenePoint \<Rightarrow> bool \<Rightarrow> ScenePoint" where
  "setRefined s v = s\<lparr>sp_was_refined := v\<rparr>"

definition setFirstProjection :: "ScenePoint \<Rightarrow> int \<times> int \<Rightarrow> ScenePoint" where
  "setFirstProjection s x = s\<lparr>sp_x := Some x\<rparr>"

text \<open>
  The methods of a scene point that change it, as calls: the mutable accessors \<open>X()\<close>
  and \<open>descriptor()\<close> return references through which the caller assigns.
\<close>

datatype sp_call =
    AddFrame "32 word"
  | SetZnccPach raster "real \<times> real"
  | SetSaliency real
  | SetRefined bool
  | SetFirstProjection "int \<times> int"
  | AssignX Vec3
  | AssignDescriptor "real list"

fun do_call :: "ScenePoint \<Rightarrow> sp_call \<Rightarrow> ScenePoint option" where
  "do_call s (AddFrame g) = Some (ScenePoint_addFrame s g)"
| "do_call s (SetZnccPach I x) = setZnccPach s I x"
| "do_call s (SetSaliency v) = Some (setSaliency s v)"
| "do_call s (SetRefined v) = Some (setRefined s v)"
| "do_call s (SetFirstProjection x) = Some (setFirstProjection s x)"
| "do_call s (AssignX X) = Some (s\<lparr>sp_X := X\<rparr>)"
| "do_call s (AssignDescriptor d) = Some (s\<lparr>sp_descriptor := d\<rparr>)"

text \<open>A sequence of calls on one scene point; it stops at the first undefined one.\<close>

fun do_calls :: "ScenePoint \<Rightarrow> sp_call list \<Rightarrow> ScenePoint option" where
  "do_calls s [] = Some s"
| "do_calls s (c # cs) = (case do_call s c of None \<Rightarrow> None | Some s' \<Rightarrow> do_calls s' cs)"

text \<open>The frame numbers passed to \<open>addFrame\<close> in a sequence of calls, in call order.\<close>

fun added_frames :: "sp_call list \<Rightarrow> 32 word list" where
  "added_frames [] = []"
| "added_frames (AddFrame g # cs) = g # added_frames cs"
| "added_frames (_ # cs) = added_frames cs"

section \<open>The engine\<close>

text \<open>
  The class \<open>PhotometricBundleAdjustment\<close> is declared in \<open>photobundle.h\<close>, and
  \<open>Calibration\<close>, \<open>ImageSize\<close>, \<open>Options\<close>, \<open>Mat44\<close> and \<open>Result\<close> in headers that
  are not part of the source at hand. The constructor shows the members \<open>_calib\<close>,
  \<open>_image_size\<close> and \<open>_options\<close>; the types of these, the remaining members of the
  class (\<open>'m\<close>, among them whatever holds the scene points), the pose type and the
  result type are parameters.
\<close>

record ('c, 's, 'o, 'm) engine =
  calib :: 'c
  image_size :: 's
  options :: 'o
  members :: 'm

text \<open>The constructor; \<open>m0\<close> is the default-initialised state of the other members.\<close>

definition PhotometricBundleAdjustment ::
    "'c \<Rightarrow> 's \<Rightarrow> 'o \<Rightarrow> 'm \<Rightarrow> ('c, 's, 'o, 'm) engine" where
  "PhotometricBundleAdjustment c sz opts m0 =
     \<lparr>calib = c, image_size = sz, options = opts, members = m0\<rparr>"

text \<open>
  \<open>addFrame(I_ptr, Z_ptr, T, result)\<close>: the image and depth buffers behind the two
  pointers, the pose, and the object behind \<open>result\<close>. The call returns the engine and
  the result object as they are afterwards (\<open>Inr\<close>), or an error (\<open>Inl\<close>). The body
  of the function is empty.
\<close>

definition addFrame ::
    "('c, 's, 'o, 'm) engine \<Rightarrow> 8 word list \<Rightarrow> real list \<Rightarrow> 't \<Rightarrow> 'r
       \<Rightarrow> 'e + (('c, 's, 'o, 'm) engine \<times> 'r)" where
  "addFrame this I_ptr Z_ptr T result = Inr (this, result)"



section \<open>Example inputs\<close>

text \<open>
  Rasters of integer grey values, and the patches that \<open>ZnccPatch::set\<close> builds from
  them with radius 2, used below where a statement is evaluated at a concrete input.
  \<open>dot_raster\<close> is black with one pixel of value 1 in the centre, \<open>inv_raster\<close> is its
  inverse; \<open>corner_raster\<close> has a single pixel of value 1 at row 0, column 5;
  \<open>const_raster\<close> has value 1 everywhere.
\<close>

definition dot_raster :: raster where
  "dot_raster = \<lparr>rows = 5, cols = 5, px = \<lambda>y x. if y = 2 \<and> x = 2 then 1 else 0\<rparr>"

definition inv_raster :: raster where
  "inv_raster = \<lparr>rows = 5, cols = 5, px = \<lambda>y x. if y = 2 \<and> x = 2 then 0 else 1\<rparr>"

definition corner_raster :: raster where
  "corner_raster = \<lparr>rows = 6, cols = 6, px = \<lambda>y x. if y = 0 \<and> x = 5 then 1 else 0\<rparr>"

definition const_raster :: raster where
  "const_raster = \<lparr>rows = 5, cols = 5, px = \<lambda>y x. 1\<rparr>"

text \<open>
  \<open>dot_patch\<close> and \<open>inv_patch\<close> are sampled at the centre \<open>(2, 2)\<close> of their rasters,
  \<open>corner_patch\<close> at \<open>(2.001, 2)\<close> of \<open>corner_raster\<close> and \<open>border_patch\<close> at the
  corner \<open>(0, 0)\<close> of \<open>const_raster\<close>.
\<close>

definition dot_patch :: ZnccPatch where
  "dot_patch =
     \<lparr>p_data =
       [- (1 / 25), - (1 / 25), - (1 / 25), - (1 / 25), - (1 / 25),
        - (1 / 25), - (1 / 25), - (1 / 25), - (1 / 25), - (1 / 25),
        - (1 / 25), - (1 / 25), 24 / 25, - (1 / 25), - (1 / 25),
        - (1 / 25), - (1 / 25), - (1 / 25), - (1 / 25), - (1 / 25),
        - (1 / 25), - (1 / 25), - (1 / 25), - (1 / 25), - (1 / 25)],
      p_norm = sqrt (24 / 25)\<rparr>"

definition inv_patch :: ZnccPatch where
  "inv_patch =
     \<lparr>p_data =
       [1 / 25, 1 / 25, 1 / 25, 1 / 25, 1 / 25,
        1 / 25, 1 / 25, 1 / 25, 1 / 25, 1 / 25,
        1 / 25, 1 / 25, - (24 / 25), 1 / 25, 1 / 25,
        1 / 25, 1 / 25, 1 / 25, 1 / 25, 1 / 25,
        1 / 25, 1 / 25, 1 / 25, 1 / 25, 1 / 25],
      p_norm = sqrt (24 / 25)\<rparr>"

definition corner_patch :: ZnccPatch where
  "corner_patch =
     \<lparr>p_data =
       [- (1 / 25000), - (1 / 25000), - (1 / 25000), - (1 / 25000), - (1 / 25000),
        - (1 / 25000), - (1 / 25000), - (1 / 25000), - (1 / 25000), - (1 / 25000),
        - (1 / 25000), - (1 / 25000), - (1 / 25000), - (1 / 25000), - (1 / 25000),
        - (1 / 25000), - (1 / 25000), - (1 / 25000), - (1 / 25000), - (1 / 25000),
        3 / 3125, - (1 / 25000), - (1 / 25000), - (1 / 25000), - (1 / 25000)],
      p_norm = sqrt (3 / 3125000)\<rparr>"

definition border_patch :: ZnccPatch where
  "border_patch =
     \<lparr>p_data =
       [- (9 / 25), - (9 / 25), - (9 / 25), - (9 / 25), - (9 / 25),
        - (9 / 25), - (9 / 25), - (9 / 25), - (9 / 25), - (9 / 25),
        - (9 / 25), - (9 / 25), 16 / 25, 16 / 25, 16 / 25,
        - (9 / 25), - (9 / 25), 16 / 25, 16 / 25, 16 / 25,
        - (9 / 25), - (9 / 25), 16 / 25, 16 / 25, 16 / 25],
      p_norm = sqrt (144 / 25)\<rparr>"

section \<open>Helper facts\<close>

lemma upto_2: "[- 2 .. 2 :: int] = [- 2, - 1, 0, 1, 2]"
  by (simp add: upto.simps)

lemma dot_commute: "dot a b = dot b a"
proof -
  have "map2 (*) a b = map2 (*) b a"
  proof (induction a arbitrary: b)
    case Nil
    show ?case by simp
  next
    case (Cons x xs)
    show ?case by (cases b) (simp_all add: Cons.IH mult.commute)
  qed
  then show ?thesis by (simp add: dot_def)
qed

lemma do_calls_frames:
  "do_calls s cs = Some s' \<Longrightarrow> sp_f s' = sp_f s @ added_frames cs"
proof (induction cs arbitrary: s)
  case Nil
  then show ?case by simp
next
  case (Cons c cs)
  then obtain s1 where s1: "do_call s c = Some s1" and rest: "do_calls s1 cs = Some s'"
    by (auto split: option.splits)
  have "sp_f s1 @ added_frames cs = sp_f s @ added_frames (c # cs)"
    using s1
    by (cases c)
       (auto simp: ScenePoint_addFrame_def setZnccPach_def setSaliency_def setRefined_def
          setFirstProjection_def split: Option.bind_splits)
  with Cons.IH [OF rest] show ?case by simp
qed

lemma those_eq_Some: "those xs = Some ys \<longleftrightarrow> xs = map Some ys"
proof (induction xs arbitrary: ys)
  case Nil
  show ?case by auto
next
  case (Cons x xs)
  show ?case
    by (cases x; cases ys) (auto simp: Cons.IH split: option.splits)
qed

lemma nth_concat_blocks:
  assumes "\<forall>xs \<in> set xss. length xs = n" and "i < length xss" and "j < n"
  shows "concat xss ! (i * n + j) = xss ! i ! j"
  using assms
proof (induction xss arbitrary: i)
  case Nil
  then show ?case by simp
next
  case (Cons xs xss)
  show ?case
  proof (cases i)
    case 0
    with Cons.prems show ?thesis by (simp add: nth_append)
  next
    case (Suc k)
    with Cons.prems have "concat xss ! (k * n + j) = xss ! k ! j"
      by (intro Cons.IH) auto
    moreover have "length xs = n" using Cons.prems by simp
    ultimately show ?thesis using Suc by (simp add: nth_append add.assoc)
  qed
qed

lemma length_concat_blocks:
  "\<forall>xs \<in> set xss. length xs = n \<Longrightarrow> length (concat xss) = length xss * n"
  by (induction xss) auto

lemma length_upto_sym: "length [- int R .. int R] = 2 * R + 1"
proof -
  have "nat (2 * int R + 1) = 2 * R + 1" by arith
  then show ?thesis by simp
qed

lemma nth_upto_sym: "k \<le> 2 * R \<Longrightarrow> [- int R .. int R] ! k = int k - int R"
  by (simp add: nth_upto)

lemma interpolateFixedPatch_Some:
  assumes "interpolateFixedPatch R I (x, y) fillval offset = Some s"
  shows "length s = Dimension R"
    and "c \<le> 2 * R \<Longrightarrow> r \<le> 2 * R \<Longrightarrow>
         interp2 I (x + offset + of_int (int c - int R)) (y + offset + of_int (int r - int R)) fillval 0
           = Some (s ! (c * (2 * R + 1) + r))"
proof -
  let ?g = "\<lambda>c. map (\<lambda>r. interp2 I (x + offset + of_int c) (y + offset + of_int r) fillval 0)
               [- int R .. int R]"
  let ?xss = "map ?g [- int R .. int R]"
  have eq: "concat ?xss = map Some s"
    using assms by (simp add: interpolateFixedPatch_def Let_def those_eq_Some)
  have blocks: "\<forall>xs \<in> set ?xss. length xs = 2 * R + 1"
    by (auto simp: length_upto_sym simp del: length_upto)
  have outer: "length ?xss = 2 * R + 1"
    by (simp add: length_upto_sym del: length_upto)
  have "length (concat ?xss) = length ?xss * (2 * R + 1)"
    using blocks by (rule length_concat_blocks)
  then have "length (map Some s) = (2 * R + 1) * (2 * R + 1)"
    unfolding eq outer .
  then show len: "length s = Dimension R"
    by (simp add: Dimension_def)
  assume c: "c \<le> 2 * R" and r: "r \<le> 2 * R"
  have lt: "c * (2 * R + 1) + r < length s"
  proof -
    have "c * (2 * R + 1) + r < c * (2 * R + 1) + (2 * R + 1)" using r by simp
    also have "\<dots> = (c + 1) * (2 * R + 1)" by simp
    also have "\<dots> \<le> (2 * R + 1) * (2 * R + 1)" using c by (intro mult_le_mono1) simp
    finally show ?thesis using len by (simp add: Dimension_def)
  qed
  have "concat ?xss ! (c * (2 * R + 1) + r) = ?xss ! c ! r"
    using blocks c r outer by (intro nth_concat_blocks) auto
  also have "\<dots> = interp2 I (x + offset + of_int (int c - int R))
                        (y + offset + of_int (int r - int R)) fillval 0"
    using c r by (simp add: nth_upto_sym length_upto_sym del: length_upto)
  finally show "interp2 I (x + offset + of_int (int c - int R))
        (y + offset + of_int (int r - int R)) fillval 0 = Some (s ! (c * (2 * R + 1) + r))"
    using lt unfolding eq by simp
qed

lemma sum_list_sub_mean:
  fixes s :: "real list"
  assumes "length s = n" and "0 < n"
  shows "sum_list (map (\<lambda>v. v - sum_list s / real n) s) = 0"
proof -
  have "sum_list (map (\<lambda>v. v - m) s) = sum_list s - real (length s) * m" for m
    by (induction s) (simp_all add: algebra_simps)
  then show ?thesis using assms by simp
qed

lemma l2norm_nonneg: "0 \<le> l2norm a"
  by (auto simp: l2norm_def intro!: sum_list_nonneg)

lemma sumsq_nonneg: "0 \<le> sum_list (map (\<lambda>v. v * v) (a :: real list))"
  by (auto intro!: sum_list_nonneg)

lemma cauchy_schwarz_list:
  fixes a b :: "real list"
  shows "(sum_list (map2 (*) a b))\<^sup>2
           \<le> sum_list (map (\<lambda>v. v * v) a) * sum_list (map (\<lambda>v. v * v) b)"
proof (induction a arbitrary: b)
  case Nil
  show ?case by simp
next
  case (Cons x xs)
  show ?case
  proof (cases b)
    case Nil
    then show ?thesis by simp
  next
    case (Cons y ys)
    define A where "A = sum_list (map (\<lambda>v. v * v) xs)"
    define B where "B = sum_list (map (\<lambda>v. v * v) ys)"
    define C where "C = sum_list (map2 (*) xs ys)"
    have A: "0 \<le> A" and B: "0 \<le> B"
      unfolding A_def B_def by (rule sumsq_nonneg)+
    have IH: "C * C \<le> A * B"
      using Cons.IH [of ys] by (simp add: A_def B_def C_def power2_eq_square)
    have "(2 * (x * y) * C)\<^sup>2 = 4 * ((x * y) * (x * y)) * (C * C)"
      by (simp add: power2_eq_square)
    also have "\<dots> \<le> 4 * ((x * y) * (x * y)) * (A * B)"
      using IH by (intro mult_left_mono) simp_all
    also have "\<dots> \<le> 4 * ((x * y) * (x * y)) * (A * B) + (x * x * B - y * y * A)\<^sup>2"
      by simp
    also have "\<dots> = (x * x * B + y * y * A)\<^sup>2"
      by (simp add: power2_eq_square algebra_simps)
    finally have sq: "(2 * (x * y) * C)\<^sup>2 \<le> (x * x * B + y * y * A)\<^sup>2" .
    have nn: "0 \<le> x * x * B + y * y * A"
    proof -
      have "0 \<le> (x * x) * B" and "0 \<le> (y * y) * A"
        using A B by (simp_all add: mult_nonneg_nonneg del: mult.assoc)
      then show ?thesis by simp
    qed
    have mid: "2 * (x * y) * C \<le> x * x * B + y * y * A"
      by (rule power2_le_imp_le [OF sq nn])
    have l: "(x * y + C) * (x * y + C) = (x * y) * (x * y) + 2 * (x * y) * C + C * C"
      by (simp add: algebra_simps)
    have r: "(x * x + A) * (y * y + B) = (x * y) * (x * y) + (x * x * B + y * y * A) + A * B"
      by (simp add: algebra_simps)
    have "(x * y + C) * (x * y + C) \<le> (x * x + A) * (y * y + B)"
      unfolding l r using mid IH by linarith
    then show ?thesis
      using Cons by (simp add: A_def B_def C_def power2_eq_square)
  qed
qed

lemma abs_dot_le: "\<bar>dot a b\<bar> \<le> l2norm a * l2norm b"
proof -
  have "\<bar>dot a b\<bar> \<le> sqrt (sum_list (map (\<lambda>v. v * v) a) * sum_list (map (\<lambda>v. v * v) b))"
    using cauchy_schwarz_list [of a b] by (intro real_le_rsqrt) (simp add: dot_def)
  then show ?thesis by (simp add: l2norm_def real_sqrt_mult)
qed

lemma ZnccPatch_set_norm:
  "ZnccPatch_set R I uv = Some a \<Longrightarrow> p_norm a = l2norm (p_data a)"
  by (auto simp: ZnccPatch_set_def Let_def split: Option.bind_splits)

lemma score_bounds:
  assumes "p_norm a = l2norm (p_data a)" and "p_norm b = l2norm (p_data b)"
  shows "- 1 \<le> score a b" and "score a b \<le> 1"
proof -
  let ?d = "p_norm a * p_norm b"
  have le: "\<bar>dot (p_data a) (p_data b)\<bar> \<le> ?d"
    using abs_dot_le [of "p_data a" "p_data b"] assms by simp
  show "- 1 \<le> score a b"
  proof (cases "1 / 1000000 < ?d")
    case True
    then have "0 < ?d" by simp
    moreover have "- ?d \<le> dot (p_data a) (p_data b)" using le by linarith
    ultimately have "- 1 \<le> dot (p_data a) (p_data b) / ?d"
      by (simp add: pos_le_divide_eq)
    with True show ?thesis by (simp add: score_def Let_def)
  next
    case False
    then show ?thesis by (simp add: score_def Let_def)
  qed
  show "score a b \<le> 1"
  proof (cases "1 / 1000000 < ?d")
    case True
    then have "0 < ?d" by simp
    moreover have "dot (p_data a) (p_data b) \<le> ?d" using le by linarith
    ultimately have "dot (p_data a) (p_data b) / ?d \<le> 1"
      by (simp add: pos_divide_le_eq)
    with True show ?thesis by (simp add: score_def Let_def)
  next
    case False
    then show ?thesis by (simp add: score_def Let_def)
  qed
qed

lemma l2norm_square: "l2norm a * l2norm a = dot a a"
proof -
  have "map2 (*) a a = map (\<lambda>v. v * v) a"
    by (induction a) simp_all
  then show ?thesis
    using sumsq_nonneg [of a] by (simp add: l2norm_def dot_def)
qed

lemma interp2_const:
  assumes k: "\<forall>r c. px I r c = k"
    and x: "0 \<le> xf" "xf \<le> real (cols I) - 1"
    and y: "0 \<le> yf" "yf \<le> real (rows I) - 1"
  shows "interp2 I xf yf fill 0 = Some k"
proof -
  define xi where "xi = \<lfloor>xf\<rfloor>"
  define yi where "yi = \<lfloor>yf\<rfloor>"
  define fx where "fx = xf - of_int xi"
  define fy where "fy = yf - of_int yi"
  define mc where "mc = int (cols I) - 1"
  define mr where "mr = int (rows I) - 1"
  have xi: "0 \<le> xi" "xi \<le> mc"
    using x by (simp_all add: xi_def mc_def floor_less_iff le_floor_iff)
  have yi: "0 \<le> yi" "yi \<le> mr"
    using y by (simp_all add: yi_def mr_def floor_less_iff le_floor_iff)
  have xlast: "fx = 0" if "xi = mc"
  proof -
    have "of_int \<lfloor>xf\<rfloor> \<le> xf" by (rule of_int_floor_le)
    moreover have "xf \<le> of_int \<lfloor>xf\<rfloor>" using x(2) that by (simp add: xi_def mc_def)
    ultimately show ?thesis unfolding fx_def xi_def by linarith
  qed
  have ylast: "fy = 0" if "yi = mr"
  proof -
    have "of_int \<lfloor>yf\<rfloor> \<le> yf" by (rule of_int_floor_le)
    moreover have "yf \<le> of_int \<lfloor>yf\<rfloor>" using y(2) that by (simp add: yi_def mr_def)
    ultimately show ?thesis unfolding fy_def yi_def by linarith
  qed
  have pix: "pixel I r c = Some k" if "0 \<le> r" "r \<le> mr" "0 \<le> c" "c \<le> mc" for r c
    using that k by (simp add: pixel_def mr_def mc_def)
  have unfold: "interp2 I xf yf fill 0 =
     (if xi \<ge> 0 \<and> xi < mc \<and> yi \<ge> 0 \<and> yi < mr then
        do {
          a \<leftarrow> pixel I yi xi;
          b \<leftarrow> pixel I yi (xi + 1);
          c \<leftarrow> pixel I (yi + 1) xi;
          d \<leftarrow> pixel I (yi + 1) (xi + 1);
          Some ((1 - fy) * (a * (1 - fx) + b * fx) + fy * (c * (1 - fx) + d * fx))
        }
      else if xi = mc \<and> yi < mr then
        (if fx > 0 then Some fill
         else do {
           a \<leftarrow> pixel I yi xi;
           c \<leftarrow> pixel I (yi + 1) xi;
           Some ((1 - fy) * a + fy * c)
         })
      else if yi = mr \<and> xi < mc then
        (if fy > 0 then Some fill
         else do {
           a \<leftarrow> pixel I yi xi;
           b \<leftarrow> pixel I yi (xi + 1);
           Some ((1 - fx) * a + fx * b)
         })
      else if xi = mc \<and> yi = mr then
        (if fx > 0 \<or> fy > 0 then Some fill else pixel I yi xi)
      else Some fill)"
    unfolding interp2_def Let_def xi_def yi_def fx_def fy_def mc_def mr_def by simp
  have blend: "(1 - t) * (k * (1 - u) + k * u) + t * (k * (1 - u) + k * u) = k" for t u :: real
    by (simp add: algebra_simps)
  have lin: "(1 - t) * k + t * k = k" for t :: real
    by (simp add: algebra_simps)
  consider (inner) "xi < mc" "yi < mr" | (lastcol) "xi = mc" "yi < mr"
    | (lastrow) "yi = mr" "xi < mc" | (corner) "xi = mc" "yi = mr"
    using xi yi by linarith
  then show ?thesis
  proof cases
    case inner
    then have "pixel I yi xi = Some k" "pixel I yi (xi + 1) = Some k"
      "pixel I (yi + 1) xi = Some k" "pixel I (yi + 1) (xi + 1) = Some k"
      using xi yi by (simp_all add: pix)
    then show ?thesis
      unfolding unfold using inner xi yi by (simp add: blend)
  next
    case lastcol
    then have "pixel I yi xi = Some k" "pixel I (yi + 1) xi = Some k"
      using xi yi by (simp_all add: pix)
    then show ?thesis
      unfolding unfold using lastcol xlast by (simp add: lin)
  next
    case lastrow
    then have "pixel I yi xi = Some k" "pixel I yi (xi + 1) = Some k"
      using xi yi by (simp_all add: pix)
    then show ?thesis
      unfolding unfold using lastrow ylast by (simp add: lin)
  next
    case corner
    then have "pixel I yi xi = Some k"
      using xi yi by (simp_all add: pix)
    then show ?thesis
      unfolding unfold using corner xlast ylast by simp
  qed
qed

lemma floor_minus_one: "\<lfloor>- 1 :: real\<rfloor> = - 1"
  by (simp add: floor_eq_iff)

lemma samples_dot:
  "interpolateFixedPatch 2 dot_raster (2, 2) 0 0
     = Some [0, 0, 0, 0, 0, 0, 0, 0, 0, 0, 0, 0, 1, 0, 0, 0, 0, 0, 0, 0, 0, 0, 0, 0, 0]"
  apply (simp add: interpolateFixedPatch_def Let_def upto_2 del: upto_rec_numeral)
  apply (simp add: interp2_def pixel_def Let_def dot_raster_def)
  done

lemma set_dot: "ZnccPatch_set 2 dot_raster (2, 2) = Some dot_patch"
  by (simp add: ZnccPatch_set_def samples_dot Let_def Dimension_def dot_patch_def l2norm_def)

lemma samples_inv:
  "interpolateFixedPatch 2 inv_raster (2, 2) 0 0
     = Some [1, 1, 1, 1, 1, 1, 1, 1, 1, 1, 1, 1, 0, 1, 1, 1, 1, 1, 1, 1, 1, 1, 1, 1, 1]"
  apply (simp add: interpolateFixedPatch_def Let_def upto_2 del: upto_rec_numeral)
  apply (simp add: interp2_def pixel_def Let_def inv_raster_def)
  done

lemma set_inv: "ZnccPatch_set 2 inv_raster (2, 2) = Some inv_patch"
  by (simp add: ZnccPatch_set_def samples_inv Let_def Dimension_def inv_patch_def l2norm_def)

lemma samples_corner:
  "interpolateFixedPatch 2 corner_raster (2001 / 1000, 2) 0 0
     = Some [0, 0, 0, 0, 0, 0, 0, 0, 0, 0, 0, 0, 0, 0, 0, 0, 0, 0, 0, 0, 1 / 1000, 0, 0, 0, 0]"
  apply (simp add: interpolateFixedPatch_def Let_def upto_2 del: upto_rec_numeral)
  apply (simp add: interp2_def pixel_def Let_def corner_raster_def)
  done

lemma set_corner: "ZnccPatch_set 2 corner_raster (2001 / 1000, 2) = Some corner_patch"
  by (simp add: ZnccPatch_set_def samples_corner Let_def Dimension_def corner_patch_def l2norm_def)

lemma samples_border:
  "interpolateFixedPatch 2 const_raster (0, 0) 0 0
     = Some [0, 0, 0, 0, 0, 0, 0, 0, 0, 0, 0, 0, 1, 1, 1, 0, 0, 1, 1, 1, 0, 0, 1, 1, 1]"
  apply (simp add: interpolateFixedPatch_def Let_def upto_2 del: upto_rec_numeral)
  apply (simp add: interp2_def pixel_def Let_def const_raster_def floor_minus_one)
  done

lemma set_border: "ZnccPatch_set 2 const_raster (0, 0) = Some border_patch"
  by (simp add: ZnccPatch_set_def samples_border Let_def Dimension_def border_patch_def l2norm_def)

lemma sum_list_all_equal:
  fixes s :: "real list"
  shows "\<forall>v \<in> set s. v = k \<Longrightarrow> sum_list s = real (length s) * k"
  by (induction s) (simp_all add: algebra_simps)

lemma interpolateFixedPatch_const:
  assumes k: "\<forall>r c. px I r c = k"
    and x: "real R \<le> fst uv" "fst uv + real R \<le> real (cols I) - 1"
    and y: "real R \<le> snd uv" "snd uv + real R \<le> real (rows I) - 1"
  shows "\<exists>s. interpolateFixedPatch R I uv fill 0 = Some s \<and> (\<forall>v \<in> set s. v = k)"
proof -
  let ?L = "[- int R .. int R]"
  define s where "s = concat (map (\<lambda>c. map (\<lambda>r. k) ?L) ?L)"
  have sample: "interp2 I (fst uv + of_int c) (snd uv + of_int r) fill 0 = Some k"
    if "c \<in> set ?L" "r \<in> set ?L" for c r
  proof -
    have c: "- real R \<le> of_int c" "of_int c \<le> real R"
      using that(1) by simp_all
    have r: "- real R \<le> of_int r" "of_int r \<le> real R"
      using that(2) by simp_all
    show ?thesis
      using x y c r by (intro interp2_const [OF k]) linarith+
  qed
  have eq1: "map (\<lambda>c. map (\<lambda>r. interp2 I (fst uv + of_int c) (snd uv + of_int r) fill 0) ?L) ?L
        = map (\<lambda>c. map (\<lambda>r. Some k) ?L) ?L"
    by (intro map_cong refl) (simp add: sample)
  have eq2: "map Some s = concat (map (\<lambda>c. map (\<lambda>r. Some k) ?L) ?L)"
    by (simp add: s_def map_concat comp_def)
  have "concat (map (\<lambda>c. map (\<lambda>r. interp2 I (fst uv + of_int c) (snd uv + of_int r) fill 0)
                 ?L) ?L) = map Some s"
    unfolding eq2 by (rule arg_cong [OF eq1])
  then have "interpolateFixedPatch R I uv fill 0 = Some s"
    by (simp add: interpolateFixedPatch_def Let_def those_eq_Some)
  moreover have "\<forall>v \<in> set s. v = k"
    by (auto simp: s_def)
  ultimately show ?thesis by blast
qed

lemma ZnccPatch_set_const:
  assumes k: "\<forall>r c. px I r c = k"
    and x: "real R \<le> fst uv" "fst uv + real R \<le> real (cols I) - 1"
    and y: "real R \<le> snd uv" "snd uv + real R \<le> real (rows I) - 1"
  shows "\<exists>z. ZnccPatch_set R I uv = Some z \<and> p_norm z = 0"
proof -
  from interpolateFixedPatch_const [OF assms, of 0]
  obtain s where s: "interpolateFixedPatch R I uv 0 0 = Some s" and all: "\<forall>v \<in> set s. v = k"
    by blast
  have len: "length s = Dimension R"
    using s interpolateFixedPatch_Some(1) [of R I "fst uv" "snd uv" 0 0 s] by simp
  have pos: "0 < Dimension R"
    by (simp add: Dimension_def)
  have mean: "sum_list s / real (Dimension R) = k"
    using sum_list_all_equal [OF all] len pos by simp
  have "map (\<lambda>v. v - k) s = map (\<lambda>v. 0) s"
    using all by (intro map_cong refl) simp
  then have "l2norm (map (\<lambda>v. v - k) s) = l2norm (map (\<lambda>v. 0) s)"
    by (simp only:)
  also have "\<dots> = 0"
    by (simp add: l2norm_def comp_def)
  finally have "l2norm (map (\<lambda>v. v - k) s) = 0" .
  then show ?thesis
    using s mean by (simp add: ZnccPatch_set_def Let_def)
qed

text \<open>
  Where the sampler and \<open>ZnccPatch::set\<close> are defined: on a raster with at least one
  row and one column, \<open>interp2\<close> reads inside the raster at every coordinate that is
  not negative and below \<open>2^31\<close>, and \<open>set\<close> returns a patch for every centre whose
  sampling grid has such coordinates only, that is, a centre at least \<open>R\<close> away from the
  left and the top border.
\<close>

lemma interp2_defined:
  assumes dims: "1 \<le> cols I" "1 \<le> rows I"
    and x: "0 \<le> xf" and y: "0 \<le> yf" and range: "xf < 2 ^ 31" "yf < 2 ^ 31"
  shows "\<exists>v. interp2 I xf yf fill 0 = Some v"
proof -
  define xi where "xi = \<lfloor>xf\<rfloor>"
  define yi where "yi = \<lfloor>yf\<rfloor>"
  define mc where "mc = int (cols I) - 1"
  define mr where "mr = int (rows I) - 1"
  have xi: "0 \<le> xi" using x by (simp add: xi_def)
  have yi: "0 \<le> yi" using y by (simp add: yi_def)
  have m: "0 \<le> mc" "0 \<le> mr" using dims by (simp_all add: mc_def mr_def)
  have pix: "pixel I r c = Some (px I r c)" if "0 \<le> r" "r \<le> mr" "0 \<le> c" "c \<le> mc" for r c
    using that by (simp add: pixel_def mr_def mc_def)
  consider (inner) "xi < mc" "yi < mr" | (lastcol) "xi = mc" "yi < mr"
    | (lastrow) "yi = mr" "xi < mc" | (corner) "xi = mc" "yi = mr"
    | (outside) "mc < xi \<or> mr < yi"
    by linarith
  then show ?thesis
  proof cases
    case inner
    then have "pixel I yi xi = Some (px I yi xi)" "pixel I yi (xi + 1) = Some (px I yi (xi + 1))"
      "pixel I (yi + 1) xi = Some (px I (yi + 1) xi)"
      "pixel I (yi + 1) (xi + 1) = Some (px I (yi + 1) (xi + 1))"
      using xi yi by (simp_all add: pix)
    then show ?thesis
      using inner xi yi
      unfolding interp2_def Let_def xi_def yi_def mc_def mr_def by simp
  next
    case lastcol
    then have "pixel I yi xi = Some (px I yi xi)" "pixel I (yi + 1) xi = Some (px I (yi + 1) xi)"
      using xi yi m by (simp_all add: pix)
    then show ?thesis
      using lastcol xi yi
      unfolding interp2_def Let_def xi_def yi_def mc_def mr_def by simp
  next
    case lastrow
    then have "pixel I yi xi = Some (px I yi xi)" "pixel I yi (xi + 1) = Some (px I yi (xi + 1))"
      using xi yi m by (simp_all add: pix)
    then show ?thesis
      using lastrow xi yi
      unfolding interp2_def Let_def xi_def yi_def mc_def mr_def by simp
  next
    case corner
    then have "pixel I yi xi = Some (px I yi xi)"
      using xi yi m by (simp_all add: pix)
    then show ?thesis
      using corner xi yi
      unfolding interp2_def Let_def xi_def yi_def mc_def mr_def by simp
  next
    case outside
    then show ?thesis
      using xi yi
      unfolding interp2_def Let_def xi_def yi_def mc_def mr_def by auto
  qed
qed

lemma ZnccPatch_set_defined:
  assumes dims: "1 \<le> cols I" "1 \<le> rows I" and x: "real R \<le> fst uv" and y: "real R \<le> snd uv"
    and range: "fst uv + real R < 2 ^ 31" "snd uv + real R < 2 ^ 31"
  shows "\<exists>a. ZnccPatch_set R I uv = Some a"
proof -
  let ?L = "[- int R .. int R]"
  let ?xs = "concat (map (\<lambda>c. map (\<lambda>r. interp2 I (fst uv + of_int c) (snd uv + of_int r) 0 0)
                 ?L) ?L)"
  have "\<exists>v. e = Some v" if "e \<in> set ?xs" for e
  proof -
    from that obtain c r where c: "c \<in> set ?L" and r: "r \<in> set ?L"
      and e: "e = interp2 I (fst uv + of_int c) (snd uv + of_int r) 0 0"
      by auto
    have lo: "- real R \<le> of_int c" "- real R \<le> of_int r"
      and hi: "of_int c \<le> real R" "of_int r \<le> real R"
      using c r by simp_all
    have "0 \<le> fst uv + of_int c" and "0 \<le> snd uv + of_int r"
      and "fst uv + of_int c < 2 ^ 31" and "snd uv + of_int r < 2 ^ 31"
      using x y range lo hi by linarith+
    then show ?thesis
      unfolding e by (rule interp2_defined [OF dims])
  qed
  then have "?xs = map Some (map the ?xs)"
    by (intro nth_equalityI) (auto simp del: set_concat)
  then have "those ?xs = Some (map the ?xs)"
    by (simp only: those_eq_Some)
  then show ?thesis
    by (simp add: ZnccPatch_set_def interpolateFixedPatch_def Let_def)
qed


section \<open>The sampler on the pixel grid\<close>

text \<open>
  C9. For every raster and all integer coordinates \<open>(x, y)\<close> with \<open>0 \<le> x < cols\<close> and
  \<open>0 \<le> y < rows\<close>, \<open>interp2(I, x, y, fill)\<close> (offset left at its default 0) returns
  exactly \<open>I(y, x)\<close>, whatever the fill value.
\<close>

theorem interp2_grid_point:
  assumes "0 \<le> x" and "x < int (cols I)" and "0 \<le> y" and "y < int (rows I)"
  shows "interp2 I (of_int x) (of_int y) fill 0 = Some (px I y x)"
  using assms by (auto simp: interp2_def pixel_def Let_def)

text \<open>
  The theorem at the 2 x 2 raster with \<open>I(y, x) = 10 y + x\<close>, at column 1 of row 0,
  with fill value 7.
\<close>

theorem interp2_grid_point_witness:
  "(0::int) \<le> 1 \<and> 1 < int (cols \<lparr>rows = 2, cols = 2, px = \<lambda>y x. of_int (10 * y + x)\<rparr>)
   \<and> (0::int) \<le> 0 \<and> 0 < int (rows \<lparr>rows = 2, cols = 2, px = \<lambda>y x. of_int (10 * y + x)\<rparr>)
   \<and> interp2 \<lparr>rows = 2, cols = 2, px = \<lambda>y x. of_int (10 * y + x)\<rparr> (of_int 1) (of_int 0) 7 0
       = Some 1"
  using interp2_grid_point [of 1 "\<lparr>rows = 2, cols = 2, px = \<lambda>y x. of_int (10 * y + x)\<rparr>" 0 7]
  by simp

section \<open>Reads of the sampler outside the raster\<close>

text \<open>
  C2. The claim is that \<open>interp2\<close> reads only entries with row index in \<open>[0, rows)\<close> and
  column index in \<open>[0, cols)\<close>. The first branch tests \<open>xi >= 0\<close> and \<open>yi >= 0\<close>; the
  branches for the last column and the last row test only \<open>yi < max_rows\<close> and
  \<open>xi < max_cols\<close>. On the 2 x 2 raster, at \<open>(x, y) = (1, -5)\<close>, the column is the last
  one, \<open>yi = -5 < max_rows\<close>, the fractional column part is 0, and the code evaluates
  \<open>I(-5, 1)\<close> and \<open>I(-4, 1)\<close>: the call reads outside the raster.
\<close>

theorem interp2_reads_outside:
  "interp2 \<lparr>rows = 2, cols = 2, px = \<lambda>y x. of_int (10 * y + x)\<rparr> 1 (- 5) 0 0 = None
   \<and> pixel \<lparr>rows = 2, cols = 2, px = \<lambda>y x. of_int (10 * y + x)\<rparr> (- 5) 1 = None"
  by (simp add: interp2_def pixel_def Let_def)

section \<open>The sampler on the last column and the last row\<close>

text \<open>
  C3, as amended. Let the raster have at least one column, let the column \<open>\<lfloor>x\<rfloor>\<close> be the
  last one and the row \<open>\<lfloor>y\<rfloor>\<close> a valid row before the last. Then \<open>interp2\<close> returns
  the fill value when the fractional column part is non-zero (the stencil would need the
  column after the last), and when it is zero (the coordinate is exactly on the last
  column) the linear interpolation along that column between the rows \<open>\<lfloor>y\<rfloor>\<close> and
  \<open>\<lfloor>y\<rfloor> + 1\<close>, whatever the fractional row part is. The same holds with rows and
  columns exchanged.
\<close>

theorem interp2_border:
  "(1 \<le> cols I \<and> \<lfloor>x\<rfloor> = int (cols I) - 1 \<and> 0 \<le> \<lfloor>y\<rfloor> \<and> \<lfloor>y\<rfloor> < int (rows I) - 1 \<longrightarrow>
      interp2 I x y fill 0 =
        (if of_int \<lfloor>x\<rfloor> < x then Some fill
         else Some ((1 - (y - of_int \<lfloor>y\<rfloor>)) * px I \<lfloor>y\<rfloor> \<lfloor>x\<rfloor>
                    + (y - of_int \<lfloor>y\<rfloor>) * px I (\<lfloor>y\<rfloor> + 1) \<lfloor>x\<rfloor>)))
   \<and> (1 \<le> rows I \<and> \<lfloor>y\<rfloor> = int (rows I) - 1 \<and> 0 \<le> \<lfloor>x\<rfloor> \<and> \<lfloor>x\<rfloor> < int (cols I) - 1 \<longrightarrow>
      interp2 I x y fill 0 =
        (if of_int \<lfloor>y\<rfloor> < y then Some fill
         else Some ((1 - (x - of_int \<lfloor>x\<rfloor>)) * px I \<lfloor>y\<rfloor> \<lfloor>x\<rfloor>
                    + (x - of_int \<lfloor>x\<rfloor>) * px I \<lfloor>y\<rfloor> (\<lfloor>x\<rfloor> + 1))))"
proof (intro conjI impI)
  assume h: "1 \<le> cols I \<and> \<lfloor>x\<rfloor> = int (cols I) - 1 \<and> 0 \<le> \<lfloor>y\<rfloor> \<and> \<lfloor>y\<rfloor> < int (rows I) - 1"
  then have "pixel I \<lfloor>y\<rfloor> \<lfloor>x\<rfloor> = Some (px I \<lfloor>y\<rfloor> \<lfloor>x\<rfloor>)"
    and "pixel I (\<lfloor>y\<rfloor> + 1) \<lfloor>x\<rfloor> = Some (px I (\<lfloor>y\<rfloor> + 1) \<lfloor>x\<rfloor>)"
    by (simp_all add: pixel_def)
  with h show "interp2 I x y fill 0 =
        (if of_int \<lfloor>x\<rfloor> < x then Some fill
         else Some ((1 - (y - of_int \<lfloor>y\<rfloor>)) * px I \<lfloor>y\<rfloor> \<lfloor>x\<rfloor>
                    + (y - of_int \<lfloor>y\<rfloor>) * px I (\<lfloor>y\<rfloor> + 1) \<lfloor>x\<rfloor>))"
    by (simp add: interp2_def Let_def)
next
  assume h: "1 \<le> rows I \<and> \<lfloor>y\<rfloor> = int (rows I) - 1 \<and> 0 \<le> \<lfloor>x\<rfloor> \<and> \<lfloor>x\<rfloor> < int (cols I) - 1"
  then have "pixel I \<lfloor>y\<rfloor> \<lfloor>x\<rfloor> = Some (px I \<lfloor>y\<rfloor> \<lfloor>x\<rfloor>)"
    and "pixel I \<lfloor>y\<rfloor> (\<lfloor>x\<rfloor> + 1) = Some (px I \<lfloor>y\<rfloor> (\<lfloor>x\<rfloor> + 1))"
    by (simp_all add: pixel_def)
  with h show "interp2 I x y fill 0 =
        (if of_int \<lfloor>y\<rfloor> < y then Some fill
         else Some ((1 - (x - of_int \<lfloor>x\<rfloor>)) * px I \<lfloor>y\<rfloor> \<lfloor>x\<rfloor>
                    + (x - of_int \<lfloor>x\<rfloor>) * px I \<lfloor>y\<rfloor> (\<lfloor>x\<rfloor> + 1)))"
    by (simp add: interp2_def Let_def)
qed

text \<open>
  The theorem on the 2 x 2 raster with rows \<open>1 2\<close> and \<open>3 4\<close>: at \<open>(x, y) = (1, 0.5)\<close>,
  on the last column, half-way between the rows; and at \<open>(0.5, 1)\<close>, on the last row,
  half-way between the columns.
\<close>

theorem interp2_border_witness:
  "((1::nat) \<le> cols \<lparr>rows = 2, cols = 2, px = \<lambda>y x. of_int (2 * y + x + 1)\<rparr>
      \<and> \<lfloor>1 :: real\<rfloor> = int (cols \<lparr>rows = 2, cols = 2, px = \<lambda>y x. of_int (2 * y + x + 1)\<rparr>) - 1
      \<and> 0 \<le> \<lfloor>1 / 2 :: real\<rfloor>
      \<and> \<lfloor>1 / 2 :: real\<rfloor> < int (rows \<lparr>rows = 2, cols = 2, px = \<lambda>y x. of_int (2 * y + x + 1)\<rparr>) - 1)
   \<and> interp2 \<lparr>rows = 2, cols = 2, px = \<lambda>y x. of_int (2 * y + x + 1)\<rparr> 1 (1 / 2) 0 0 = Some 3
   \<and> ((1::nat) \<le> rows \<lparr>rows = 2, cols = 2, px = \<lambda>y x. of_int (2 * y + x + 1)\<rparr>
      \<and> \<lfloor>1 :: real\<rfloor> = int (rows \<lparr>rows = 2, cols = 2, px = \<lambda>y x. of_int (2 * y + x + 1)\<rparr>) - 1
      \<and> 0 \<le> \<lfloor>1 / 2 :: real\<rfloor>
      \<and> \<lfloor>1 / 2 :: real\<rfloor> < int (cols \<lparr>rows = 2, cols = 2, px = \<lambda>y x. of_int (2 * y + x + 1)\<rparr>) - 1)
   \<and> interp2 \<lparr>rows = 2, cols = 2, px = \<lambda>y x. of_int (2 * y + x + 1)\<rparr> (1 / 2) 1 0 0 = Some (7 / 2)"
  using interp2_border [of "\<lparr>rows = 2, cols = 2, px = \<lambda>y x. of_int (2 * y + x + 1)\<rparr>" 1 "1 / 2" 0]
    interp2_border [of "\<lparr>rows = 2, cols = 2, px = \<lambda>y x. of_int (2 * y + x + 1)\<rparr>" "1 / 2" 1 0]
  by simp

text \<open>
  The claim as stated fails. On the same raster, with fill value 0, the coordinate
  \<open>(1, 0.5)\<close> is exactly on the last column, not on the last row, and its fractional row
  part is non-zero: the claim gives the fill value, the code the mean 3 of the two pixels
  2 and 4 of that column. At \<open>(0.5, 1)\<close>, exactly on the last row with a non-zero
  fractional column part, the code gives 3.5.
\<close>

theorem interp2_border_counterexample:
  "interp2 \<lparr>rows = 2, cols = 2, px = \<lambda>y x. of_int (2 * y + x + 1)\<rparr> 1 (1 / 2) 0 0 = Some 3
   \<and> interp2 \<lparr>rows = 2, cols = 2, px = \<lambda>y x. of_int (2 * y + x + 1)\<rparr> (1 / 2) 1 0 0 = Some (7 / 2)"
  by (simp add: interp2_def pixel_def Let_def)

section \<open>The copy extraction mode\<close>

text \<open>
  C6. The claim is that \<open>copyFixedPatch\<close> clamps the column into \<open>[0, cols - 1]\<close> and the
  row into \<open>[0, rows - 1]\<close>. The code clamps with \<open>std::max(R, ...)\<close>: the lower bound
  is the radius. On the 5 x 5 raster with \<open>I(y, x) = 10 y + x\<close>, radius 2 and centre
  \<open>(2, 2)\<close>, the grid covers the raster exactly and the claim gives the first entry
  \<open>I(0, 0) = 0\<close>; the code gives \<open>I(2, 2) = 22\<close> there, and no entry comes from the
  rows or columns 0 and 1.
\<close>

theorem copyFixedPatch_lower_clamp:
  "copyFixedPatch 2 \<lparr>rows = 5, cols = 5, px = \<lambda>y x. of_int (10 * y + x)\<rparr> (2, 2)
     = Some [22, 22, 22, 32, 42, 22, 22, 22, 32, 42, 22, 22, 22, 32, 42,
             23, 23, 23, 33, 43, 24, 24, 24, 34, 44]"
  by (simp add: copyFixedPatch_def cpp_round_def pixel_def Let_def upto_2 del: upto_rec_numeral)

section \<open>The contract of \<open>ZnccPatch::set\<close>\<close>

text \<open>
  C8. The claim is that after \<open>ZnccPatch::set(I, uv)\<close> every stored entry is the value
  of the bilinear sampler at its grid position, which is the fill value 0 for a position
  outside the raster, minus the mean of these values. \<open>set\<close> takes each sample from
  \<open>interp2\<close>, and with it the reads outside the raster shown for C2. On \<open>dot_raster\<close>
  with radius 2 and the centre \<open>(1, 4)\<close>, a pixel of the raster, the grid position for the
  column offset -2 and the row offset 0 is \<open>(-1, 4)\<close>: left of the raster and exactly on
  the last row. \<open>interp2\<close> takes the branch for the last row, finds the fractional row
  part 0 and evaluates \<open>I(4, -1)\<close>: the call of \<open>set\<close> reads outside the raster, and the
  entry is not the fill value minus the mean.
\<close>

theorem ZnccPatch_set_reads_outside:
  "ZnccPatch_set 2 dot_raster (1, 4) = None
   \<and> interp2 dot_raster (1 + of_int (- 2)) (4 + of_int 0) 0 0 = None
   \<and> pixel dot_raster 4 (- 1) = None"
proof -
  have sample: "interp2 dot_raster (- 1) 4 0 0 = None"
    by (simp add: interp2_def pixel_def Let_def dot_raster_def floor_minus_one)
  have "interpolateFixedPatch 2 dot_raster (1, 4) 0 0 = None"
    apply (simp add: interpolateFixedPatch_def Let_def upto_2 del: upto_rec_numeral)
    apply (simp add: interp2_def pixel_def Let_def dot_raster_def floor_minus_one)
    done
  then have "ZnccPatch_set 2 dot_raster (1, 4) = None"
    by (simp add: ZnccPatch_set_def)
  moreover have "pixel dot_raster 4 (- 1) = None"
    by (simp add: pixel_def dot_raster_def)
  ultimately show ?thesis
    using sample by simp
qed

text \<open>
  Where \<open>set\<close> returns, it has done what is asked of it. With \<open>uv = (x, y)\<close>, there is a
  vector \<open>s\<close> of \<open>(2R+1)*(2R+1)\<close> samples, stored column by column, whose entry for the
  column offset \<open>c - R\<close> and the row offset \<open>r - R\<close> is the value of \<open>interp2\<close> at
  \<open>(x + c - R, y + r - R)\<close> with fill value 0; the stored data vector is \<open>s\<close> minus its
  mean, has \<open>(2R+1)*(2R+1)\<close> entries that sum to zero, and the cached norm is the L2 norm
  of the data vector, which is not negative. By \<open>ZnccPatch_set_defined\<close> it returns for
  every centre at least \<open>R\<close> away from the left and the top border.
\<close>

lemma ZnccPatch_set_contract:
  assumes "ZnccPatch_set R I (x, y) = Some a"
  shows "\<exists>s. length s = (2 * R + 1) * (2 * R + 1)
           \<and> (\<forall>c r. c \<le> 2 * R \<and> r \<le> 2 * R \<longrightarrow>
                  interp2 I (x + of_int (int c - int R)) (y + of_int (int r - int R)) 0 0
                    = Some (s ! (c * (2 * R + 1) + r)))
           \<and> p_data a = map (\<lambda>v. v - sum_list s / real ((2 * R + 1) * (2 * R + 1))) s
           \<and> length (p_data a) = (2 * R + 1) * (2 * R + 1)
           \<and> sum_list (p_data a) = 0
           \<and> p_norm a = sqrt (\<Sum>v\<leftarrow>p_data a. v\<^sup>2)
           \<and> 0 \<le> p_norm a"
proof -
  from assms obtain s where s: "interpolateFixedPatch R I (x, y) 0 0 = Some s"
    and a: "a = \<lparr>p_data = map (\<lambda>v. v - sum_list s / real (Dimension R)) s,
                  p_norm = l2norm (map (\<lambda>v. v - sum_list s / real (Dimension R)) s)\<rparr>"
    by (auto simp: ZnccPatch_set_def Let_def split: Option.bind_splits)
  have len: "length s = Dimension R"
    using s by (rule interpolateFixedPatch_Some(1))
  have samples: "\<forall>c r. c \<le> 2 * R \<and> r \<le> 2 * R \<longrightarrow>
      interp2 I (x + of_int (int c - int R)) (y + of_int (int r - int R)) 0 0
        = Some (s ! (c * (2 * R + 1) + r))"
    using interpolateFixedPatch_Some(2) [OF s] by simp
  have pos: "0 < Dimension R"
    by (simp add: Dimension_def)
  have zero: "sum_list (p_data a) = 0"
    unfolding a using sum_list_sub_mean [OF len pos] by simp
  have norm: "p_norm a = sqrt (\<Sum>v\<leftarrow>p_data a. v\<^sup>2)"
    unfolding a by (simp add: l2norm_def power2_eq_square)
  have "0 \<le> p_norm a"
    unfolding a using l2norm_nonneg by simp
  with len samples zero norm a show ?thesis
    unfolding Dimension_def by (intro exI [of _ s]) simp
qed

section \<open>The score of a patch against itself\<close>

text \<open>
  C4, as amended. For every patch \<open>a\<close> produced by \<open>ZnccPatch::set\<close>, the self-score
  \<open>a.score(a)\<close> is 1 when the square of the cached norm exceeds \<open>1e-6\<close> (the norm
  exceeds 0.001), and the sentinel -1 otherwise.
\<close>

theorem self_score:
  assumes "ZnccPatch_set R I uv = Some a"
  shows "score a a = (if 1 / 1000000 < p_norm a * p_norm a then 1 else - 1)"
proof -
  have "p_norm a * p_norm a = dot (p_data a) (p_data a)"
    using ZnccPatch_set_norm [OF assms] by (simp add: l2norm_square)
  then show ?thesis
    by (simp add: score_def Let_def)
qed

text \<open>The theorem for the patch at the centre of \<open>dot_raster\<close>, whose norm squared is 0.96.\<close>

theorem self_score_witness:
  "ZnccPatch_set 2 dot_raster (2, 2) = Some dot_patch
   \<and> 1 / 1000000 < p_norm dot_patch * p_norm dot_patch
   \<and> score dot_patch dot_patch = 1"
  using self_score [OF set_dot] set_dot by (simp add: dot_patch_def)

text \<open>
  The claim as stated fails. The patch sampled at \<open>(2.001, 2)\<close> of \<open>corner_raster\<close>
  has one sample 0.001 and 24 samples 0: its variance is not zero and its cached norm is
  positive, but the square of the norm is \<open>9.6e-7\<close>, below the threshold, and the
  self-score is -1.
\<close>

theorem self_score_counterexample:
  "ZnccPatch_set 2 corner_raster (2001 / 1000, 2) = Some corner_patch
   \<and> 0 < p_norm corner_patch
   \<and> score corner_patch corner_patch = - 1"
  by (simp add: set_corner) (simp add: score_def dot_def corner_patch_def)

section \<open>The score and its sentinel\<close>

text \<open>
  C5, as amended. In exact arithmetic: \<open>ZnccPatch::score\<close> returns the dot product of
  the two data vectors divided by the product of the cached norms when that product is
  above \<open>1e-6\<close>, and the sentinel -1 when it is below \<open>1e-6\<close>. For two patches produced
  by \<open>ZnccPatch::set\<close> the sentinel is never above the score, and a valid correlation can
  be equal to it. A patch built from a raster of one constant value, with the whole
  sampling grid inside \<open>[0, cols-1] \<times> [0, rows-1]\<close>, has norm 0 and scores the sentinel
  against every patch, in both directions.
\<close>

theorem score_contract:
  "(1 / 1000000 < p_norm a * p_norm b \<longrightarrow>
      score a b = dot (p_data a) (p_data b) / (p_norm a * p_norm b))
   \<and> (p_norm a * p_norm b < 1 / 1000000 \<longrightarrow> score a b = - 1)
   \<and> (ZnccPatch_set R I1 uv1 = Some a \<and> ZnccPatch_set R I2 uv2 = Some b \<longrightarrow> - 1 \<le> score a b)
   \<and> ((\<forall>r c. px I r c = k)
        \<and> real R \<le> fst uv \<and> fst uv + real R \<le> real (cols I) - 1
        \<and> real R \<le> snd uv \<and> snd uv + real R \<le> real (rows I) - 1
      \<longrightarrow> (\<exists>z. ZnccPatch_set R I uv = Some z \<and> p_norm z = 0
               \<and> score z b = - 1 \<and> score b z = - 1))"
proof (intro conjI impI)
  assume "1 / 1000000 < p_norm a * p_norm b"
  then show "score a b = dot (p_data a) (p_data b) / (p_norm a * p_norm b)"
    by (simp add: score_def Let_def)
next
  assume "p_norm a * p_norm b < 1 / 1000000"
  then show "score a b = - 1"
    by (simp add: score_def Let_def)
next
  assume "ZnccPatch_set R I1 uv1 = Some a \<and> ZnccPatch_set R I2 uv2 = Some b"
  then have a: "ZnccPatch_set R I1 uv1 = Some a" and b: "ZnccPatch_set R I2 uv2 = Some b"
    by simp_all
  show "- 1 \<le> score a b"
    using ZnccPatch_set_norm [OF a] ZnccPatch_set_norm [OF b] by (rule score_bounds(1))
next
  assume h: "(\<forall>r c. px I r c = k)
        \<and> real R \<le> fst uv \<and> fst uv + real R \<le> real (cols I) - 1
        \<and> real R \<le> snd uv \<and> snd uv + real R \<le> real (rows I) - 1"
  then obtain z where z: "ZnccPatch_set R I uv = Some z" "p_norm z = 0"
    using ZnccPatch_set_const [of I k R uv] by blast
  then have "score z b = - 1" and "score b z = - 1"
    by (simp_all add: score_def Let_def)
  with z show "\<exists>z. ZnccPatch_set R I uv = Some z \<and> p_norm z = 0
               \<and> score z b = - 1 \<and> score b z = - 1"
    by blast
qed

text \<open>
  The theorem for the patches at the centres of \<open>dot_raster\<close> and \<open>inv_raster\<close>, whose
  product of norms is 0.96; for the patch of \<open>corner_raster\<close> against itself, whose
  product of norms is \<open>9.6e-7\<close>; and for the patch at the centre of \<open>const_raster\<close>.
\<close>

theorem score_contract_witness:
  "1 / 1000000 < p_norm dot_patch * p_norm inv_patch
   \<and> score dot_patch inv_patch
       = dot (p_data dot_patch) (p_data inv_patch) / (p_norm dot_patch * p_norm inv_patch)
   \<and> p_norm corner_patch * p_norm corner_patch < 1 / 1000000
   \<and> score corner_patch corner_patch = - 1
   \<and> (ZnccPatch_set 2 dot_raster (2, 2) = Some dot_patch
      \<and> ZnccPatch_set 2 inv_raster (2, 2) = Some inv_patch)
   \<and> - 1 \<le> score dot_patch inv_patch
   \<and> ((\<forall>r c. px const_raster r c = 1)
      \<and> real 2 \<le> fst (2 :: real, 2 :: real)
      \<and> fst (2 :: real, 2 :: real) + real 2 \<le> real (cols const_raster) - 1
      \<and> real 2 \<le> snd (2 :: real, 2 :: real)
      \<and> snd (2 :: real, 2 :: real) + real 2 \<le> real (rows const_raster) - 1)
   \<and> (\<exists>z. ZnccPatch_set 2 const_raster (2, 2) = Some z \<and> p_norm z = 0
          \<and> score z inv_patch = - 1 \<and> score inv_patch z = - 1)"
proof -
  have above: "1 / 1000000 < p_norm dot_patch * p_norm inv_patch"
    by (simp add: dot_patch_def inv_patch_def)
  have below: "p_norm corner_patch * p_norm corner_patch < 1 / 1000000"
    by (simp add: corner_patch_def)
  have const: "(\<forall>r c. px const_raster r c = 1)
      \<and> real 2 \<le> fst (2 :: real, 2 :: real)
      \<and> fst (2 :: real, 2 :: real) + real 2 \<le> real (cols const_raster) - 1
      \<and> real 2 \<le> snd (2 :: real, 2 :: real)
      \<and> snd (2 :: real, 2 :: real) + real 2 \<le> real (rows const_raster) - 1"
    by (simp add: const_raster_def)
  show ?thesis
    using score_contract [where a = dot_patch and b = inv_patch and R = 2 and ?I1.0 = dot_raster
        and ?uv1.0 = "(2, 2)" and ?I2.0 = inv_raster and ?uv2.0 = "(2, 2)" and I = const_raster
        and k = 1 and uv = "(2, 2)"]
      score_contract [where a = corner_patch and b = corner_patch and R = 2
        and ?I1.0 = corner_raster and ?uv1.0 = "(2001 / 1000, 2)" and ?I2.0 = corner_raster
        and ?uv2.0 = "(2001 / 1000, 2)" and I = const_raster and k = 1 and uv = "(2, 2)"]
      above below const set_dot set_inv
    by blast
qed

text \<open>
  The claim as stated fails in two places. The patches of \<open>dot_raster\<close> and of its
  inverse have a product of norms above the threshold, so their correlation is a valid
  one, and the sentinel is not below it. The patch at the corner \<open>(0, 0)\<close> of the constant
  raster takes the fill value 0 outside the raster, has a norm above the threshold, and
  does not score the sentinel against itself.
\<close>

theorem score_contract_counterexample:
  "(ZnccPatch_set 2 dot_raster (2, 2) = Some dot_patch
      \<and> ZnccPatch_set 2 inv_raster (2, 2) = Some inv_patch
      \<and> 1 / 1000000 < p_norm dot_patch * p_norm inv_patch
      \<and> \<not> - 1 < score dot_patch inv_patch)
   \<and> (ZnccPatch_set 2 const_raster (0, 0) = Some border_patch
      \<and> 1 / 1000000 < p_norm border_patch * p_norm border_patch
      \<and> score border_patch border_patch \<noteq> - 1)"
proof -
  have "1 / 1000000 < p_norm dot_patch * p_norm inv_patch
      \<and> \<not> - 1 < score dot_patch inv_patch"
    by (simp add: score_def dot_def dot_patch_def inv_patch_def)
  moreover have "1 / 1000000 < p_norm border_patch * p_norm border_patch
      \<and> score border_patch border_patch \<noteq> - 1"
    by (simp add: score_def dot_def border_patch_def)
  ultimately show ?thesis
    using set_dot set_inv set_border by simp
qed

section \<open>Symmetry of the score\<close>

text \<open>
  C10. For all correlation patches \<open>a\<close> and \<open>b\<close>, \<open>a.score(b) = b.score(a)\<close>. Patches of
  one radius have data vectors of one length; the equation holds for any two patches.
\<close>

theorem score_symmetric: "score a b = score b a"
  by (simp add: score_def Let_def dot_commute [of "p_data a"] mult.commute [of "p_norm a"])

section \<open>The visibility list of a scene point\<close>



text \<open>
  What the methods of a scene point guarantee by themselves. Whatever methods are called
  on a point after its constructor, the visibility list is the constructor's frame
  number followed by the numbers passed to \<open>ScenePoint::addFrame\<close>, in call order: it is
  never empty and its first element never changes. \<open>ScenePoint::addFrame\<close> appends what
  it is given without a check, so the order of the list is the order of the numbers its
  caller passes; the engine at hand never calls it.
\<close>

lemma do_calls_visibility:
  assumes "do_calls (ScenePoint X f_id) cs = Some s"
  shows "visibilityList s = f_id # added_frames cs
       \<and> 1 \<le> numFrames s
       \<and> refFrameId s = Some f_id
       \<and> (sorted_wrt (<) (visibilityList s) \<longleftrightarrow> sorted_wrt (<) (f_id # added_frames cs))"
  using do_calls_frames [OF assms]
  by (simp add: visibilityList_def numFrames_def refFrameId_def ScenePoint_def)

lemma ScenePoint_addFrame_unchecked:
  "visibilityList (ScenePoint_addFrame (ScenePoint (0, 0, 0) 5) 5) = [5, 5]"
  by (simp add: ScenePoint_def ScenePoint_addFrame_def visibilityList_def)

section \<open>The per-frame call\<close>

text \<open>
  C1, as amended. Every call of \<open>PhotometricBundleAdjustment::addFrame\<close> returns
  without an error, whatever the image, the depth and the pose are, and leaves the result
  object and the engine, with whatever scene points it holds, as they were.
\<close>

theorem addFrame_leaves_everything:
  "addFrame this I_ptr Z_ptr T result = Inr (this, result)"
  by (simp add: addFrame_def)

text \<open>
  The claim as stated fails in both of its parts. An engine configured for 2 x 2 images
  is given an image buffer of one byte, an empty depth buffer and the zero matrix as
  pose: the call reports no error. The result object, which held no pose, no point and
  no diagnostics before the call, holds none after it.
\<close>

theorem addFrame_counterexample:
  "addFrame (PhotometricBundleAdjustment () (2 :: nat, 2 :: nat) () ([] :: ScenePoint list))
      [0] [] (replicate 4 (replicate 4 (0 :: real)))
      ([] :: real list list list, [] :: Vec3 list, [] :: string list)
     = (Inr (PhotometricBundleAdjustment () (2, 2) () [], ([], [], [])) :: unit + _)"
  by (simp add: addFrame_def)

end
